theory Spec2Isabelle
  imports Complex_Main "HOL-Library.Multiset"
begin

section \<open>Python values and failures\<close>

text \<open>
  The solver is Python. City indices and permutation entries are Python integers
  (\<open>int\<close>), distances are numbers that are only ever added (modelled as exact
  \<open>real\<close>s), a list or array subscript that is out of range raises \<open>IndexError\<close>, and
  iterating over or subscripting \<open>None\<close> raises \<open>TypeError\<close>. An exception that the
  optimisation library raises by itself is a \<open>LibraryError\<close> with the name of its class.
\<close>

datatype error = IndexError | TypeError | LibraryError string

text \<open>
  \<open>xs[i]\<close> on a Python list or a numpy array: indices \<open>0 .. len-1\<close> read from the
  front, indices \<open>-len .. -1\<close> read from the back, everything else raises.
\<close>

definition py_getitem :: "'a list \<Rightarrow> int \<Rightarrow> error + 'a" where
  "py_getitem xs i =
     (if 0 \<le> i \<and> i < int (length xs) then Inr (xs ! nat i)
      else if - int (length xs) \<le> i \<and> i < 0 then Inr (xs ! nat (int (length xs) + i))
      else Inl IndexError)"

section \<open>TSPProblem\<close>

record TSPProblem =
  distance_matrix :: "real list list"
  n_cities :: nat
  start_city :: int
  cities_to_visit :: "int list"
  n_var :: int
  n_obj :: int
  xl :: int
  xu :: int

text \<open>
  \<open>TSPProblem.__init__\<close>: the cities to visit are
  \<open>[i for i in range(n_cities) if i != start_city]\<close>; the start city is not checked.
\<close>

definition TSPProblem_init :: "real list list \<Rightarrow> int \<Rightarrow> TSPProblem" where
  "TSPProblem_init dm sc =
     (let n = length dm;
          ctv = filter (\<lambda>i. i \<noteq> sc) (map int [0..<n])
      in \<lparr> distance_matrix = dm, n_cities = n, start_city = sc, cities_to_visit = ctv,
           n_var = int (length ctv), n_obj = 1, xl = 0, xu = int (length ctv) - 1 \<rparr>)"

text \<open>
  The comprehension \<open>[cities_to_visit[int(i)] for i in x]\<close>, used by \<open>_evaluate\<close> and by
  both solver methods: the first subscript that is out of range aborts it.
\<close>

fun map_cities :: "int list \<Rightarrow> int list \<Rightarrow> error + int list" where
  "map_cities ctv [] = Inr []"
| "map_cities ctv (i # rest) =
     (case py_getitem ctv i of
        Inl e \<Rightarrow> Inl e
      | Inr c \<Rightarrow> (case map_cities ctv rest of
                    Inl e \<Rightarrow> Inl e
                  | Inr cs \<Rightarrow> Inr (c # cs)))"

text \<open>One step of the loop body: \<open>distance_matrix[tour[i]][tour[i + 1]]\<close>.\<close>

definition leg :: "real list list \<Rightarrow> int list \<Rightarrow> nat \<Rightarrow> error + real" where
  "leg dm tour i =
     (case py_getitem tour (int i) of
        Inl e \<Rightarrow> Inl e
      | Inr a \<Rightarrow> (case py_getitem dm a of
                    Inl e \<Rightarrow> Inl e
                  | Inr row \<Rightarrow> (case py_getitem tour (int i + 1) of
                                  Inl e \<Rightarrow> Inl e
                                | Inr b \<Rightarrow> py_getitem row b)))"

text \<open>
  \<open>for i in range(len(tour) - 1): total_distance += ...\<close>, over the list of loop
  indices, with the running total as accumulator.
\<close>

fun legs_loop :: "real list list \<Rightarrow> int list \<Rightarrow> nat list \<Rightarrow> real \<Rightarrow> error + real" where
  "legs_loop dm tour [] total_distance = Inr total_distance"
| "legs_loop dm tour (i # rest) total_distance =
     (case leg dm tour i of
        Inl e \<Rightarrow> Inl e
      | Inr d \<Rightarrow> legs_loop dm tour rest (total_distance + d))"

text \<open>
  \<open>TSPProblem._evaluate\<close>; the value stored in \<open>out["F"]\<close> is the result. The sum is
  taken in the order of the code, in exact arithmetic; \<open>evaluate_with\<close> below takes the
  addition as a parameter, for the double arithmetic of the code.
\<close>

definition evaluate :: "TSPProblem \<Rightarrow> int list \<Rightarrow> error + real" where
  "evaluate self x =
     (case map_cities (cities_to_visit self) x of
        Inl e \<Rightarrow> Inl e
      | Inr tour \<Rightarrow>
     (case py_getitem (distance_matrix self) (start_city self) of
        Inl e \<Rightarrow> Inl e
      | Inr row0 \<Rightarrow>
     (case py_getitem tour 0 of
        Inl e \<Rightarrow> Inl e
      | Inr c0 \<Rightarrow>
     (case py_getitem row0 c0 of
        Inl e \<Rightarrow> Inl e
      | Inr d0 \<Rightarrow>
     (case legs_loop (distance_matrix self) tour [0..<length tour - 1] (0 + d0) of
        Inl e \<Rightarrow> Inl e
      | Inr total_distance \<Rightarrow>
     (case py_getitem tour (- 1) of
        Inl e \<Rightarrow> Inl e
      | Inr cl \<Rightarrow>
     (case py_getitem (distance_matrix self) cl of
        Inl e \<Rightarrow> Inl e
      | Inr rowl \<Rightarrow>
     (case py_getitem rowl (start_city self) of
        Inl e \<Rightarrow> Inl e
      | Inr dl \<Rightarrow> Inr (total_distance + dl)))))))))"

text \<open>
  Reconstruction of the complete tour, as both solver methods do it:
  \<open>best_tour = [problem.cities_to_visit[int(i)] for i in best_perm]\<close>, then
  \<open>[start_city] + best_tour + [start_city]\<close>.
\<close>

definition decode :: "TSPProblem \<Rightarrow> int \<Rightarrow> int list \<Rightarrow> error + int list" where
  "decode problem sc best_perm =
     (case map_cities (cities_to_visit problem) best_perm of
        Inl e \<Rightarrow> Inl e
      | Inr best_tour \<Rightarrow> Inr ([sc] @ best_tour @ [sc]))"

section \<open>Reference notions\<close>

text \<open>A matrix with \<open>n\<close> rows of \<open>n\<close> entries each.\<close>

definition square :: "real list list \<Rightarrow> bool" where
  "square dm = list_all (\<lambda>row. length row = length dm) dm"

text \<open>
  The length of the closed tour through the cities \<open>cs\<close> from and back to \<open>s\<close>, written
  as the sum of its legs: from \<open>s\<close> to the first city, between consecutive cities, and
  from the last city back to \<open>s\<close>.
\<close>

definition closed_tour_length :: "real list list \<Rightarrow> int \<Rightarrow> int list \<Rightarrow> real" where
  "closed_tour_length D s cs =
     D ! nat s ! nat (cs ! 0)
     + (\<Sum>k\<leftarrow>[0..<length cs - 1]. D ! nat (cs ! k) ! nat (cs ! (k + 1)))
     + D ! nat (cs ! (length cs - 1)) ! nat s"

text \<open>\<open>x\<close> is a permutation of \<open>0 .. m-1\<close>.\<close>

definition is_permutation :: "nat \<Rightarrow> int list \<Rightarrow> bool" where
  "is_permutation m x = (mset x = mset (map int [0..<m]))"

text \<open>
  Which subscripts Python accepts for a sequence of length \<open>n\<close>, and the position they
  read.
\<close>

definition py_valid :: "nat \<Rightarrow> int \<Rightarrow> bool" where
  "py_valid n i = (- int n \<le> i \<and> i < int n)"

definition py_index :: "nat \<Rightarrow> int \<Rightarrow> nat" where
  "py_index n i = nat (if i < 0 then int n + i else i)"

text \<open>\<open>D[i][j] = D[j][i]\<close> for all cities.\<close>

definition symmetric :: "real list list \<Rightarrow> bool" where
  "symmetric dm =
     (\<forall>i<length dm. \<forall>j<length dm. dm ! i ! j = dm ! j ! i)"

text \<open>Every entry of the matrix is non-negative.\<close>

definition non_negative :: "real list list \<Rightarrow> bool" where
  "non_negative dm = list_all (list_all (\<lambda>d. 0 \<le> d)) dm"

section \<open>Double arithmetic\<close>

text \<open>
  A Python float is an IEEE 754 double: the sum of two doubles is their exact sum
  rounded to 53 significant bits, a tie going to the even significand. Infinities, the
  overflow to them and the subnormal range are not modelled.
\<close>

definition round_half_even :: "real \<Rightarrow> int" where
  "round_half_even q =
     (if q - of_int \<lfloor>q\<rfloor> < 1 / 2 then \<lfloor>q\<rfloor>
      else if 1 / 2 < q - of_int \<lfloor>q\<rfloor> then \<lfloor>q\<rfloor> + 1
      else if even \<lfloor>q\<rfloor> then \<lfloor>q\<rfloor> else \<lfloor>q\<rfloor> + 1)"

definition double_round :: "real \<Rightarrow> real" where
  "double_round v =
     (if v = 0 then 0
      else of_int (round_half_even (v / 2 powr of_int (\<lfloor>log 2 \<bar>v\<bar>\<rfloor> - 52)))
             * 2 powr of_int (\<lfloor>log 2 \<bar>v\<bar>\<rfloor> - 52))"

definition double_add :: "real \<Rightarrow> real \<Rightarrow> real" where
  "double_add a b = double_round (a + b)"

text \<open>
  Distances that are whole numbers between 0 and \<open>M\<close>: their sums are exact in double
  arithmetic as long as they stay below \<open>2 ^ 53\<close>.
\<close>

definition whole_distances :: "real \<Rightarrow> real list list \<Rightarrow> bool" where
  "whole_distances M dm =
     list_all (list_all (\<lambda>d. 0 \<le> d \<and> d \<le> M \<and> of_int \<lfloor>d\<rfloor> = d)) dm"

text \<open>
  \<open>TSPProblem._evaluate\<close> once more, with the addition that \<open>+=\<close> performs as a
  parameter: \<open>double_add\<close> is what the code computes, \<open>(+)\<close> is \<open>evaluate\<close>.
\<close>

fun legs_loop_with ::
  "(real \<Rightarrow> real \<Rightarrow> real) \<Rightarrow> real list list \<Rightarrow> int list \<Rightarrow> nat list \<Rightarrow> real
     \<Rightarrow> error + real" where
  "legs_loop_with add dm tour [] total_distance = Inr total_distance"
| "legs_loop_with add dm tour (i # rest) total_distance =
     (case leg dm tour i of
        Inl e \<Rightarrow> Inl e
      | Inr d \<Rightarrow> legs_loop_with add dm tour rest (add total_distance d))"

definition evaluate_with ::
  "(real \<Rightarrow> real \<Rightarrow> real) \<Rightarrow> TSPProblem \<Rightarrow> int list \<Rightarrow> error + real" where
  "evaluate_with add self x =
     (case map_cities (cities_to_visit self) x of
        Inl e \<Rightarrow> Inl e
      | Inr tour \<Rightarrow>
     (case py_getitem (distance_matrix self) (start_city self) of
        Inl e \<Rightarrow> Inl e
      | Inr row0 \<Rightarrow>
     (case py_getitem tour 0 of
        Inl e \<Rightarrow> Inl e
      | Inr c0 \<Rightarrow>
     (case py_getitem row0 c0 of
        Inl e \<Rightarrow> Inl e
      | Inr d0 \<Rightarrow>
     (case legs_loop_with add (distance_matrix self) tour [0..<length tour - 1] (add 0 d0) of
        Inl e \<Rightarrow> Inl e
      | Inr total_distance \<Rightarrow>
     (case py_getitem tour (- 1) of
        Inl e \<Rightarrow> Inl e
      | Inr cl \<Rightarrow>
     (case py_getitem (distance_matrix self) cl of
        Inl e \<Rightarrow> Inl e
      | Inr rowl \<Rightarrow>
     (case py_getitem rowl (start_city self) of
        Inl e \<Rightarrow> Inl e
      | Inr dl \<Rightarrow> Inr (add total_distance dl)))))))))"

section \<open>The optimisation library\<close>

text \<open>
  The genetic algorithm itself is pymoo's: \<open>GA(...)\<close>, \<open>get_termination\<close> and
  \<open>minimize\<close>. The solver only configures it. The configuration objects are modelled
  as data, with \<open>None\<close> for an operator probability that the source leaves to the
  library's default, and \<open>minimize\<close> is a parameter of the solver: a function of the
  problem, the algorithm, the termination criterion and the seed that either raises
  (also where one of the library's constructors does) or returns a result with the
  best permutation \<open>X\<close> and its objective vector \<open>F\<close>, each of which is \<open>None\<close> when the
  run has found no solution. It reaches the distance matrix only through the problem
  it is given.
\<close>

datatype sampling = PermutationRandomSampling
datatype crossover = OrderCrossover "real option"
datatype mutation = InversionMutation "real option"
datatype Termination = get_termination string int

record GA =
  pop_size :: int
  sampling :: sampling
  crossover :: crossover
  mutation :: mutation
  eliminate_duplicates :: bool

record Result =
  X :: "int list option"
  F :: "real list option"

type_synonym minimize = "TSPProblem \<Rightarrow> GA \<Rightarrow> Termination \<Rightarrow> int \<Rightarrow> error + Result"

section \<open>TSPSolver\<close>

text \<open>
  The dictionary a solver method returns, and the two methods. The tour is rebuilt by
  iterating over \<open>res.X\<close> and the distance is \<open>res.F[0]\<close>: each raises \<open>TypeError\<close> on
  \<open>None\<close>. \<open>time.time()\<close> is read twice per run; the clock is a parameter, \<open>time k\<close>
  being the \<open>k\<close>-th reading since the program started, and every method takes the
  number of readings so far and returns it updated. Printing is not modelled.
\<close>

record RunResult =
  algorithm :: string
  result_start_city :: int
  tour :: "int list"
  distance :: real
  execution_time :: real
  generations :: int

definition solve_with_genetic_algorithm ::
  "minimize \<Rightarrow> (nat \<Rightarrow> real) \<Rightarrow> real list list \<Rightarrow> int \<Rightarrow> int \<Rightarrow> int \<Rightarrow> nat
     \<Rightarrow> error + (RunResult \<times> nat)" where
  "solve_with_genetic_algorithm minimize time dm sc pop n_gen k =
     (let problem = TSPProblem_init dm sc;
          ga = \<lparr> pop_size = pop, sampling = PermutationRandomSampling,
                 crossover = OrderCrossover None, mutation = InversionMutation None,
                 eliminate_duplicates = True \<rparr>;
          termination = get_termination ''n_gen'' n_gen;
          start_time = time k
      in case minimize problem ga termination 42 of
           Inl e \<Rightarrow> Inl e
         | Inr res \<Rightarrow>
        (let end_time = time (k + 1)
         in case X res of
              None \<Rightarrow> Inl TypeError
            | Some best_perm \<Rightarrow>
           (case decode problem sc best_perm of
              Inl e \<Rightarrow> Inl e
            | Inr complete_tour \<Rightarrow>
           (case F res of
              None \<Rightarrow> Inl TypeError
            | Some objectives \<Rightarrow>
           (case py_getitem objectives 0 of
              Inl e \<Rightarrow> Inl e
            | Inr d \<Rightarrow>
                Inr (\<lparr> algorithm = ''Genetic Algorithm (GA)'', result_start_city = sc,
                       tour = complete_tour, distance = d,
                       execution_time = end_time - start_time, generations = n_gen \<rparr>,
                     k + 2))))))"

definition solve_with_modified_ga ::
  "minimize \<Rightarrow> (nat \<Rightarrow> real) \<Rightarrow> real list list \<Rightarrow> int \<Rightarrow> int \<Rightarrow> int \<Rightarrow> nat
     \<Rightarrow> error + (RunResult \<times> nat)" where
  "solve_with_modified_ga minimize time dm sc pop n_gen k =
     (let problem = TSPProblem_init dm sc;
          ga = \<lparr> pop_size = pop, sampling = PermutationRandomSampling,
                 crossover = OrderCrossover (Some 0.95), mutation = InversionMutation (Some 0.2),
                 eliminate_duplicates = True \<rparr>;
          termination = get_termination ''n_gen'' n_gen;
          start_time = time k
      in case minimize problem ga termination 123 of
           Inl e \<Rightarrow> Inl e
         | Inr res \<Rightarrow>
        (let end_time = time (k + 1)
         in case X res of
              None \<Rightarrow> Inl TypeError
            | Some best_perm \<Rightarrow>
           (case decode problem sc best_perm of
              Inl e \<Rightarrow> Inl e
            | Inr complete_tour \<Rightarrow>
           (case F res of
              None \<Rightarrow> Inl TypeError
            | Some objectives \<Rightarrow>
           (case py_getitem objectives 0 of
              Inl e \<Rightarrow> Inl e
            | Inr d \<Rightarrow>
                Inr (\<lparr> algorithm = ''Modified Genetic Algorithm (GA-2)'',
                       result_start_city = sc, tour = complete_tour, distance = d,
                       execution_time = end_time - start_time, generations = n_gen \<rparr>,
                     k + 2))))))"

text \<open>
  \<open>compare_algorithms\<close>: the loop over the starting cities. \<open>results\<close> maps a starting
  city to the dictionary of its runs; the entry of a city is created empty, then
  receives \<open>'GA'\<close>, then \<open>'GA2'\<close>. There is no \<open>try\<close> in the method: an exception of a
  run leaves the loop and the method.
\<close>

fun compare_loop ::
  "minimize \<Rightarrow> (nat \<Rightarrow> real) \<Rightarrow> real list list \<Rightarrow> int list \<Rightarrow> int \<Rightarrow> int
     \<Rightarrow> (int \<rightharpoonup> (string \<rightharpoonup> RunResult)) \<Rightarrow> nat
     \<Rightarrow> error + ((int \<rightharpoonup> (string \<rightharpoonup> RunResult)) \<times> nat)" where
  "compare_loop minimize time dm [] pop n_gen results k = Inr (results, k)"
| "compare_loop minimize time dm (sc # rest) pop n_gen results k =
     (case solve_with_genetic_algorithm minimize time dm sc pop n_gen k of
        Inl e \<Rightarrow> Inl e
      | Inr (ga_result, k1) \<Rightarrow>
     (case solve_with_modified_ga minimize time dm sc pop n_gen k1 of
        Inl e \<Rightarrow> Inl e
      | Inr (ga2_result, k2) \<Rightarrow>
          compare_loop minimize time dm rest pop n_gen
            (results(sc \<mapsto> [''GA'' \<mapsto> ga_result, ''GA2'' \<mapsto> ga2_result])) k2))"

definition compare_algorithms ::
  "minimize \<Rightarrow> (nat \<Rightarrow> real) \<Rightarrow> real list list \<Rightarrow> int list \<Rightarrow> int \<Rightarrow> int \<Rightarrow> nat
     \<Rightarrow> error + ((int \<rightharpoonup> (string \<rightharpoonup> RunResult)) \<times> nat)" where
  "compare_algorithms minimize time dm start_cities pop n_gen k =
     compare_loop minimize time dm start_cities pop n_gen Map.empty k"

text \<open>
  What the specification calls the evolution engine: one run, parameterised by the
  crossover probability, the mutation probability, the random seed and the label of
  the result.
\<close>

definition solve_parameterized ::
  "real option \<Rightarrow> real option \<Rightarrow> int \<Rightarrow> string
     \<Rightarrow> minimize \<Rightarrow> (nat \<Rightarrow> real) \<Rightarrow> real list list \<Rightarrow> int \<Rightarrow> int \<Rightarrow> int \<Rightarrow> nat
     \<Rightarrow> error + (RunResult \<times> nat)" where
  "solve_parameterized crossover_probability mutation_probability random_seed label
       minimize time dm sc pop n_gen k =
     (case minimize (TSPProblem_init dm sc)
             \<lparr> pop_size = pop, sampling = PermutationRandomSampling,
               crossover = OrderCrossover crossover_probability,
               mutation = InversionMutation mutation_probability,
               eliminate_duplicates = True \<rparr>
             (get_termination ''n_gen'' n_gen) random_seed of
        Inl e \<Rightarrow> Inl e
      | Inr res \<Rightarrow>
     (case X res of
        None \<Rightarrow> Inl TypeError
      | Some best_perm \<Rightarrow>
     (case decode (TSPProblem_init dm sc) sc best_perm of
        Inl e \<Rightarrow> Inl e
      | Inr complete_tour \<Rightarrow>
     (case F res of
        None \<Rightarrow> Inl TypeError
      | Some objectives \<Rightarrow>
     (case py_getitem objectives 0 of
        Inl e \<Rightarrow> Inl e
      | Inr d \<Rightarrow>
          Inr (\<lparr> algorithm = label, result_start_city = sc, tour = complete_tour,
                 distance = d, execution_time = time (k + 1) - time k,
                 generations = n_gen \<rparr>,
               k + 2))))))"

text \<open>
  The part of a run's outcome that does not depend on the clock: the error, or the
  tour, its distance and the generation count.
\<close>

definition outcome :: "error + (RunResult \<times> nat) \<Rightarrow> error + (int list \<times> real \<times> int)" where
  "outcome r =
     (case r of
        Inl e \<Rightarrow> Inl e
      | Inr (result, k) \<Rightarrow> Inr (tour result, distance result, generations result))"


text \<open>
  pymoo is not part of the repository. To run the solver on concrete inputs,
  \<open>minimize_model\<close> follows pymoo's run where its outcome does not depend on the random
  numbers, that is, for a problem whose evaluation raises and for a problem with one
  variable, whose only permutation is the identity:
  \<^item> the first generation evaluates the sampled permutations, and an exception of
    \<open>_evaluate\<close> leaves \<open>minimize\<close>;
  \<^item> after a generation the termination criterion divides the generation counter by
    the generation limit, which raises \<open>ZeroDivisionError\<close> for the limit 0, and ends
    the run after the first generation for the limit 1;
  \<^item> a second generation mutates every offspring when the mutation probability is the
    default, and the inversion draws two distinct positions of the permutation, which
    raises \<open>ValueError\<close> when there is one position only.
  Every other run depends on the random numbers and is marked as outside the model; no
  statement below runs the model there. The model evaluates in exact arithmetic; the
  distances of the runs below are small whole numbers, for which the double arithmetic
  of the code is exact too.
\<close>

definition minimize_model :: minimize where
  "minimize_model problem ga termination seed =
     (case termination of
        get_termination name n_max_gen \<Rightarrow>
          if name \<noteq> ''n_gen'' \<or> pop_size ga < 1
          then Inl (LibraryError ''outside the model'')
          else
            (let x = map int [0..<nat (n_var problem)]
             in case evaluate problem x of
                  Inl e \<Rightarrow> Inl e
                | Inr f \<Rightarrow>
                    if 1 < n_var problem then Inl (LibraryError ''outside the model'')
                    else if n_max_gen = 0 then Inl (LibraryError ''ZeroDivisionError'')
                    else if n_max_gen = 1 then Inr \<lparr> X = Some x, F = Some [f] \<rparr>
                    else if 1 < n_max_gen \<and> mutation ga = InversionMutation None
                    then Inl (LibraryError ''ValueError'')
                    else Inl (LibraryError ''outside the model'')))"

section \<open>Subscripts, the city list and the solver runs\<close>

lemma py_getitem_eq:
  "py_getitem xs i =
     (if py_valid (length xs) i then Inr (xs ! py_index (length xs) i) else Inl IndexError)"
  by (auto simp: py_getitem_def py_valid_def py_index_def)

lemma py_index_less: "py_valid n i \<Longrightarrow> py_index n i < n"
  by (auto simp: py_valid_def py_index_def)



lemma map_cities_eq:
  "map_cities ctv x =
     (if \<forall>i\<in>set x. py_valid (length ctv) i
      then Inr (map (\<lambda>i. ctv ! py_index (length ctv) i) x) else Inl IndexError)"
  by (induction x) (auto simp: py_getitem_eq)

lemma square_row: "square dm \<Longrightarrow> k < length dm \<Longrightarrow> length (dm ! k) = length dm"
  by (simp add: square_def list_all_length)

lemma leg_eq:
  assumes "square dm" "Suc i < length cs"
    and "\<forall>c\<in>set cs. 0 \<le> c \<and> c < int (length dm)"
  shows "leg dm cs i = Inr (dm ! nat (cs ! i) ! nat (cs ! Suc i))"
proof -
  have a: "0 \<le> cs ! i \<and> cs ! i < int (length dm)"
    using assms by (meson Suc_lessD nth_mem)
  have b: "0 \<le> cs ! Suc i \<and> cs ! Suc i < int (length dm)"
    using assms by (meson nth_mem)
  have r: "length (dm ! nat (cs ! i)) = length dm"
    using a assms(1) by (intro square_row) auto
  show ?thesis
    using assms(2) a b r
    by (simp add: leg_def py_getitem_def nat_add_distrib Suc_nat_eq_nat_zadd1)
qed

lemma legs_loop_eq:
  assumes "square dm" "\<forall>i\<in>set ixs. Suc i < length cs"
    and "\<forall>c\<in>set cs. 0 \<le> c \<and> c < int (length dm)"
  shows "legs_loop dm cs ixs acc =
           Inr (acc + (\<Sum>i\<leftarrow>ixs. dm ! nat (cs ! i) ! nat (cs ! Suc i)))"
  using assms(2)
proof (induction ixs arbitrary: acc)
  case Nil
  then show ?case by simp
next
  case (Cons i ixs)
  then show ?case
    using leg_eq [OF assms(1) _ assms(3), of i] by (simp add: add.assoc)
qed

lemma cities_to_visit_init:
  "cities_to_visit (TSPProblem_init dm s) = filter (\<lambda>i. i \<noteq> s) (map int [0..<length dm])"
  by (simp add: TSPProblem_init_def Let_def)

lemma set_cities_to_visit:
  "set (cities_to_visit (TSPProblem_init dm s)) = {0..<int (length dm)} - {s}"
proof -
  have "set (map int [0..<length dm]) = {0..<int (length dm)}"
    by (simp add: image_int_atLeastLessThan)
  then show ?thesis
    unfolding cities_to_visit_init set_filter by auto
qed




lemma cities_to_visit_out:
  assumes "s < 0 \<or> int (length dm) \<le> s"
  shows "cities_to_visit (TSPProblem_init dm s) = map int [0..<length dm]"
  unfolding cities_to_visit_init using assms by (intro filter_True) auto


lemma is_permutation_set: "is_permutation m x \<Longrightarrow> set x = {0..<int m}"
  unfolding is_permutation_def
  by (drule mset_eq_setD) (simp add: image_int_atLeastLessThan)

lemma is_permutation_valid: "is_permutation m x \<Longrightarrow> i \<in> set x \<Longrightarrow> py_valid m i"
  by (auto simp: is_permutation_set py_valid_def)

lemma mset_mapped_cities:
  assumes "is_permutation (length ctv) x"
  shows "mset (map (\<lambda>i. ctv ! py_index (length ctv) i) x) = mset ctv"
proof -
  let ?f = "\<lambda>i. ctv ! py_index (length ctv) i"
  have "mset x = mset (map int [0..<length ctv])"
    using assms by (simp add: is_permutation_def)
  then have "image_mset ?f (mset x) = image_mset ?f (mset (map int [0..<length ctv]))"
    by (rule arg_cong)
  also have "\<dots> = mset (map (\<lambda>k. ctv ! k) [0..<length ctv])"
    by (simp add: multiset.map_comp comp_def py_index_def)
  also have "\<dots> = mset ctv"
    by (simp add: map_nth)
  finally show ?thesis by simp
qed

lemma evaluate_eq:
  assumes sq: "square dm" and sv: "py_valid (length dm) s" and ne: "x \<noteq> []"
    and xv: "\<forall>i\<in>set x. py_valid (length (cities_to_visit (TSPProblem_init dm s))) i"
  shows "evaluate (TSPProblem_init dm s) x =
           Inr (closed_tour_length dm (int (py_index (length dm) s))
                  (map (\<lambda>i. cities_to_visit (TSPProblem_init dm s)
                               ! py_index (length (cities_to_visit (TSPProblem_init dm s))) i) x))"
proof -
  let ?p = "TSPProblem_init dm s"
  let ?ctv = "cities_to_visit ?p"
  let ?cs = "map (\<lambda>i. ?ctv ! py_index (length ?ctv) i) x"
  let ?s = "py_index (length dm) s"
  have dmp: "distance_matrix ?p = dm" and scp: "start_city ?p = s"
    by (simp_all add: TSPProblem_init_def Let_def)
  have mc: "map_cities ?ctv x = Inr ?cs"
    using xv by (simp add: map_cities_eq)
  have cs_ne: "?cs \<noteq> []" using ne by simp
  have "set ?cs \<subseteq> set ?ctv"
    using xv by (auto simp: py_index_less)
  then have cs_rng: "\<forall>c\<in>set ?cs. 0 \<le> c \<and> c < int (length dm)"
    unfolding set_cities_to_visit by auto
  have s_lt: "?s < length dm" using sv by (rule py_index_less)
  have row0: "py_getitem dm s = Inr (dm ! ?s)"
    using sv by (simp add: py_getitem_eq)
  have len0: "length (dm ! ?s) = length dm"
    using sq s_lt by (rule square_row)
  have c0: "py_getitem ?cs 0 = Inr (?cs ! 0)"
    using cs_ne by (simp add: py_getitem_def)
  have c0r: "0 \<le> ?cs ! 0 \<and> ?cs ! 0 < int (length dm)"
    using cs_rng cs_ne by (metis length_greater_0_conv nth_mem)
  have d0: "py_getitem (dm ! ?s) (?cs ! 0) = Inr (dm ! ?s ! nat (?cs ! 0))"
    using c0r len0 by (simp add: py_getitem_def)
  have loop: "legs_loop dm ?cs [0..<length ?cs - 1] acc =
      Inr (acc + (\<Sum>i\<leftarrow>[0..<length ?cs - 1]. dm ! nat (?cs ! i) ! nat (?cs ! Suc i)))" for acc
    using sq _ cs_rng by (rule legs_loop_eq) auto
  have cl: "py_getitem ?cs (- 1) = Inr (?cs ! (length ?cs - 1))"
    using cs_ne by (cases ?cs) (simp_all add: py_getitem_def nat_diff_distrib')
  have clr: "0 \<le> ?cs ! (length ?cs - 1) \<and> ?cs ! (length ?cs - 1) < int (length dm)"
    using cs_rng cs_ne by (metis diff_less length_greater_0_conv nth_mem zero_less_one)
  have rowl: "py_getitem dm (?cs ! (length ?cs - 1)) = Inr (dm ! nat (?cs ! (length ?cs - 1)))"
    using clr by (simp add: py_getitem_def)
  have lenl: "length (dm ! nat (?cs ! (length ?cs - 1))) = length dm"
    using sq clr by (intro square_row) auto
  have dl: "py_getitem (dm ! nat (?cs ! (length ?cs - 1))) s
              = Inr (dm ! nat (?cs ! (length ?cs - 1)) ! ?s)"
    using sv lenl by (simp add: py_getitem_eq)
  show ?thesis
    unfolding evaluate_def dmp scp mc sum.case row0 c0 d0 loop cl rowl dl closed_tour_length_def
    by simp
qed

lemma evaluate_fail:
  assumes "\<not> (py_valid (length dm) s \<and> x \<noteq> []
             \<and> (\<forall>i\<in>set x. py_valid (length (cities_to_visit (TSPProblem_init dm s))) i))"
  shows "evaluate (TSPProblem_init dm s) x = Inl IndexError"
proof -
  have dmp: "distance_matrix (TSPProblem_init dm s) = dm"
    and scp: "start_city (TSPProblem_init dm s) = s"
    by (simp_all add: TSPProblem_init_def Let_def)
  show ?thesis
    using assms unfolding evaluate_def dmp scp map_cities_eq
    by (auto simp: py_getitem_eq py_valid_def split: sum.splits)
qed

lemma decode_eq:
  "decode p sc x =
     (if \<forall>i\<in>set x. py_valid (length (cities_to_visit p)) i
      then Inr ([sc] @ map (\<lambda>i. cities_to_visit p ! py_index (length (cities_to_visit p)) i) x @ [sc])
      else Inl IndexError)"
  by (simp add: decode_def map_cities_eq)

lemma py_getitem_mem: "py_getitem xs i = Inr v \<Longrightarrow> v \<in> set xs"
  by (auto simp: py_getitem_eq py_index_less split: if_splits)

lemma non_negative_entry:
  "non_negative dm \<Longrightarrow> py_getitem dm a = Inr row \<Longrightarrow> py_getitem row b = Inr d \<Longrightarrow> 0 \<le> d"
  by (metis (mono_tags, lifting) non_negative_def list_all_iff py_getitem_mem)

lemma leg_non_negative: "non_negative dm \<Longrightarrow> leg dm cs i = Inr d \<Longrightarrow> 0 \<le> d"
  by (auto simp: leg_def split: sum.splits dest: non_negative_entry)

lemma closed_tour_length_rev:
  assumes sym: "symmetric dm" and ne: "cs \<noteq> []"
    and rng: "\<forall>c\<in>set cs. 0 \<le> c \<and> c < int (length dm)"
    and s: "0 \<le> s" "s < int (length dm)"
  shows "closed_tour_length dm s (rev cs) = closed_tour_length dm s cs"
proof -
  let ?m = "length cs"
  let ?g = "\<lambda>j. dm ! nat (cs ! j) ! nat (cs ! Suc j)"
  have swap: "dm ! nat a ! nat b = dm ! nat b ! nat a"
    if "0 \<le> a" "a < int (length dm)" "0 \<le> b" "b < int (length dm)" for a b
    using sym that by (simp add: symmetric_def)
  have at: "0 \<le> cs ! j \<and> cs ! j < int (length dm)" if "j < ?m" for j
    using rng that by simp
  have m: "0 < ?m" using ne by simp
  have first: "dm ! nat s ! nat (rev cs ! 0) = dm ! nat (cs ! (?m - 1)) ! nat s"
    using m s at [of "?m - 1"] by (simp add: rev_nth swap)
  have last: "dm ! nat (rev cs ! (?m - 1)) ! nat s = dm ! nat s ! nat (cs ! 0)"
    using m s at [of 0] by (simp add: rev_nth swap)
  have "(\<Sum>k\<leftarrow>[0..<?m - 1]. dm ! nat (rev cs ! k) ! nat (rev cs ! (k + 1)))
          = (\<Sum>k<?m - 1. dm ! nat (rev cs ! k) ! nat (rev cs ! Suc k))"
    by (simp add: interv_sum_list_conv_sum_set_nat atLeast0LessThan)
  also have "\<dots> = (\<Sum>k<?m - 1. ?g (?m - 1 - Suc k))"
  proof (rule sum.cong)
    fix k assume "k \<in> {..<?m - 1}"
    then have k: "Suc k < ?m" by simp
    have e: "Suc (?m - 1 - Suc k) = ?m - Suc k" using k by simp
    have "dm ! nat (rev cs ! k) ! nat (rev cs ! Suc k)
            = dm ! nat (cs ! (?m - Suc k)) ! nat (cs ! (?m - Suc (Suc k)))"
      using k by (simp add: rev_nth)
    also have "\<dots> = dm ! nat (cs ! (?m - Suc (Suc k))) ! nat (cs ! (?m - Suc k))"
      using at [of "?m - Suc k"] at [of "?m - Suc (Suc k)"] k by (intro swap) simp_all
    finally show "dm ! nat (rev cs ! k) ! nat (rev cs ! Suc k) = ?g (?m - 1 - Suc k)"
      using e by simp
  qed simp
  also have "\<dots> = (\<Sum>k<?m - 1. ?g k)"
    by (rule sum.nat_diff_reindex)
  also have "\<dots> = (\<Sum>k\<leftarrow>[0..<?m - 1]. dm ! nat (cs ! k) ! nat (cs ! (k + 1)))"
    by (simp add: interv_sum_list_conv_sum_set_nat atLeast0LessThan)
  finally have mid: "(\<Sum>k\<leftarrow>[0..<?m - 1]. dm ! nat (rev cs ! k) ! nat (rev cs ! (k + 1)))
      = (\<Sum>k\<leftarrow>[0..<?m - 1]. dm ! nat (cs ! k) ! nat (cs ! (k + 1)))" .
  show ?thesis
    unfolding closed_tour_length_def length_rev first last mid by simp
qed

lemma evaluate_rev:
  assumes "square dm" "symmetric dm"
  shows "evaluate (TSPProblem_init dm s) (rev x) = evaluate (TSPProblem_init dm s) x"
proof (cases "py_valid (length dm) s \<and> x \<noteq> []
             \<and> (\<forall>i\<in>set x. py_valid (length (cities_to_visit (TSPProblem_init dm s))) i)")
  case True
  let ?ctv = "cities_to_visit (TSPProblem_init dm s)"
  let ?f = "\<lambda>i. ?ctv ! py_index (length ?ctv) i"
  have "set (map ?f x) \<subseteq> set ?ctv"
    using True by (auto simp: py_index_less)
  then have rng: "\<forall>c\<in>set (map ?f x). 0 \<le> c \<and> c < int (length dm)"
    unfolding set_cities_to_visit by auto
  have s: "0 \<le> int (py_index (length dm) s)" "int (py_index (length dm) s) < int (length dm)"
    using True by (simp_all add: py_index_less)
  have "evaluate (TSPProblem_init dm s) (rev x)
          = Inr (closed_tour_length dm (int (py_index (length dm) s)) (rev (map ?f x)))"
    using True assms(1) by (subst evaluate_eq) (simp_all add: rev_map)
  also have "\<dots> = Inr (closed_tour_length dm (int (py_index (length dm) s)) (map ?f x))"
    using closed_tour_length_rev [OF assms(2) _ rng s] True by simp
  also have "\<dots> = evaluate (TSPProblem_init dm s) x"
    using True assms(1) by (subst evaluate_eq) simp_all
  finally show ?thesis .
next
  case False
  then have "\<not> (py_valid (length dm) s \<and> rev x \<noteq> []
             \<and> (\<forall>i\<in>set (rev x). py_valid (length (cities_to_visit (TSPProblem_init dm s))) i))"
    by simp
  then show ?thesis
    using False evaluate_fail [of dm s x] evaluate_fail [of dm s "rev x"] by presburger
qed


lemma solve_with_genetic_algorithm_unfold:
  "solve_with_genetic_algorithm m t dm sc pop n k =
     solve_parameterized None None 42 ''Genetic Algorithm (GA)'' m t dm sc pop n k"
  by (auto simp: solve_with_genetic_algorithm_def solve_parameterized_def Let_def
           split: sum.splits option.splits)

lemma solve_with_modified_ga_unfold:
  "solve_with_modified_ga m t dm sc pop n k =
     solve_parameterized (Some 0.95) (Some 0.2) 123 ''Modified Genetic Algorithm (GA-2)''
       m t dm sc pop n k"
  by (auto simp: solve_with_modified_ga_def solve_parameterized_def Let_def
           split: sum.splits option.splits)

lemma outcome_solve_parameterized:
  "outcome (solve_parameterized pc pm seed label m t dm sc pop n k) =
     (case m (TSPProblem_init dm sc)
             \<lparr> pop_size = pop, sampling = PermutationRandomSampling,
               crossover = OrderCrossover pc, mutation = InversionMutation pm,
               eliminate_duplicates = True \<rparr>
             (get_termination ''n_gen'' n) seed of
        Inl e \<Rightarrow> Inl e
      | Inr res \<Rightarrow>
     (case X res of
        None \<Rightarrow> Inl TypeError
      | Some best_perm \<Rightarrow>
     (case decode (TSPProblem_init dm sc) sc best_perm of
        Inl e \<Rightarrow> Inl e
      | Inr complete_tour \<Rightarrow>
     (case F res of
        None \<Rightarrow> Inl TypeError
      | Some objectives \<Rightarrow>
     (case py_getitem objectives 0 of
        Inl e \<Rightarrow> Inl e
      | Inr d \<Rightarrow> Inr (complete_tour, d, n))))))"
  by (simp add: outcome_def solve_parameterized_def split: sum.splits option.splits)

lemma outcome_Inl: "outcome r = Inl e \<longleftrightarrow> r = Inl e"
  by (auto simp: outcome_def split: sum.splits)

lemma outcome_Inr: "outcome r = Inr v \<Longrightarrow> \<exists>result k. r = Inr (result, k)"
  by (auto simp: outcome_def split: sum.splits)

lemma not_py_valid: "\<not> py_valid n i \<longleftrightarrow> i < - int n \<or> int n \<le> i"
  by (auto simp: py_valid_def)

lemma solve_with_genetic_algorithm_fails:
  "solve_with_genetic_algorithm m t dm sc pop n k = Inl e \<longleftrightarrow>
     m (TSPProblem_init dm sc)
       \<lparr> pop_size = pop, sampling = PermutationRandomSampling,
         crossover = OrderCrossover None, mutation = InversionMutation None,
         eliminate_duplicates = True \<rparr>
       (get_termination ''n_gen'' n) 42 = Inl e
     \<or> (\<exists>res. m (TSPProblem_init dm sc)
                 \<lparr> pop_size = pop, sampling = PermutationRandomSampling,
                   crossover = OrderCrossover None, mutation = InversionMutation None,
                   eliminate_duplicates = True \<rparr>
                 (get_termination ''n_gen'' n) 42 = Inr res
              \<and> (case X res of
                    None \<Rightarrow> e = TypeError
                  | Some best_perm \<Rightarrow>
                      if \<exists>i\<in>set best_perm.
                           \<not> py_valid (length (cities_to_visit (TSPProblem_init dm sc))) i
                      then e = IndexError
                      else (case F res of
                              None \<Rightarrow> e = TypeError
                            | Some objectives \<Rightarrow> objectives = [] \<and> e = IndexError)))"
  by (auto simp: solve_with_genetic_algorithm_def Let_def decode_eq py_getitem_eq py_valid_def
           split: sum.splits option.splits if_splits)

lemma compare_loop_prefix:
  assumes "\<forall>c\<in>set pre.
             (\<exists>r. outcome (solve_with_genetic_algorithm m t dm c pop n 0) = Inr r)
             \<and> (\<exists>r. outcome (solve_with_modified_ga m t dm c pop n 0) = Inr r)"
  shows "\<exists>results' k'. compare_loop m t dm (pre @ rest) pop n results k =
                         compare_loop m t dm rest pop n results' k'"
  using assms
proof (induction pre arbitrary: results k)
  case Nil
  then show ?case by auto
next
  case (Cons c pre)
  from Cons.prems obtain r1 r2 where
    "outcome (solve_with_genetic_algorithm m t dm c pop n 0) = Inr r1"
    "outcome (solve_with_modified_ga m t dm c pop n 0) = Inr r2"
    by auto
  then have a: "outcome (solve_with_genetic_algorithm m t dm c pop n k) = Inr r1"
    and b: "outcome (solve_with_modified_ga m t dm c pop n k2) = Inr r2" for k2
    unfolding solve_with_genetic_algorithm_unfold solve_with_modified_ga_unfold
    by (simp_all only: outcome_solve_parameterized)
  from outcome_Inr [OF a] obtain g k1 where
    g: "solve_with_genetic_algorithm m t dm c pop n k = Inr (g, k1)" by blast
  from outcome_Inr [OF b] obtain g2 k2 where
    g2: "solve_with_modified_ga m t dm c pop n k1 = Inr (g2, k2)" by blast
  have step: "compare_loop m t dm ((c # pre) @ rest) pop n results k =
      compare_loop m t dm (pre @ rest) pop n
        (results(c \<mapsto> [''GA'' \<mapsto> g, ''GA2'' \<mapsto> g2])) k2"
    by (simp add: g g2)
  have "\<forall>c\<in>set pre.
          (\<exists>r. outcome (solve_with_genetic_algorithm m t dm c pop n 0) = Inr r)
          \<and> (\<exists>r. outcome (solve_with_modified_ga m t dm c pop n 0) = Inr r)"
    using Cons.prems by simp
  from Cons.IH [OF this] show ?case unfolding step .
qed




lemma round_half_even_of_int: "round_half_even (of_int m) = m"
  by (simp add: round_half_even_def)

lemma round_half_even_nonneg: "0 \<le> q \<Longrightarrow> 0 \<le> round_half_even q"
  by (simp add: round_half_even_def)

lemma double_round_nonneg: "0 \<le> v \<Longrightarrow> 0 \<le> double_round v"
  by (simp add: double_round_def round_half_even_nonneg)

lemma double_add_nonneg: "0 \<le> a \<Longrightarrow> 0 \<le> b \<Longrightarrow> 0 \<le> double_add a b"
  by (simp add: double_add_def double_round_nonneg)

lemma floor_log2_eq:
  assumes "0 < v" "2 powr of_int k \<le> v" "v < 2 powr of_int (k + 1)"
  shows "\<lfloor>log 2 v\<rfloor> = k"
  using assms by (simp add: floor_log_eq_powr_iff)

lemma double_round_representable:
  assumes "2 ^ 52 \<le> m" "m < 2 ^ 53"
  shows "double_round (of_int m * 2 powr of_int e) = of_int m * 2 powr of_int e"
proof -
  let ?v = "of_int m * 2 powr of_int e :: real"
  have m1: "(2::real) ^ 52 \<le> of_int m"
    using assms(1) by (metis of_int_le_iff of_int_numeral of_int_power)
  have m2: "of_int m < (2::real) ^ 53"
    using assms(2) by (metis of_int_less_iff of_int_numeral of_int_power)
  have p: "(0::real) < 2 powr of_int e" by simp
  have pos: "0 < ?v" using m1 p by (simp add: zero_less_mult_iff)
  have e52: "(2::real) powr of_int (52 + e) = 2 ^ 52 * 2 powr of_int e"
    by (simp add: powr_add powr_realpow [symmetric])
  have e53: "(2::real) powr of_int (52 + e + 1) = 2 ^ 53 * 2 powr of_int e"
    by (simp add: powr_add powr_realpow [symmetric])
  have lo: "2 powr of_int (52 + e) \<le> ?v"
    unfolding e52 using m1 p by (simp add: mult_right_mono)
  have hi: "?v < 2 powr of_int (52 + e + 1)"
    unfolding e53 using m2 p by (simp add: mult_strict_right_mono)
  have fl: "\<lfloor>log 2 \<bar>?v\<bar>\<rfloor> = 52 + e"
    using pos lo hi floor_log2_eq [of ?v "52 + e"] by simp
  have q: "?v / 2 powr of_int (52 + e - 52) = of_int m"
    by simp
  show ?thesis
    unfolding double_round_def fl q round_half_even_of_int using pos by simp
qed

lemma double_round_tie: "double_round 10000000000000001 = 10000000000000000"
proof -
  let ?v = "10000000000000001 :: real"
  have "(2::real) powr of_int 53 = 2 ^ 53" "(2::real) powr of_int (53 + 1) = 2 ^ 54"
    by (simp_all add: powr_realpow [symmetric])
  then have "(2::real) powr of_int 53 \<le> ?v" "?v < 2 powr of_int (53 + 1)"
    by simp_all
  then have fl: "\<lfloor>log 2 \<bar>?v\<bar>\<rfloor> = 53"
    using floor_log2_eq [of ?v 53] by simp
  have q: "?v / 2 powr of_int (53 - 52) = 5000000000000000 + 1 / 2"
    by simp
  have f: "\<lfloor>5000000000000000 + 1 / 2 :: real\<rfloor> = 5000000000000000"
    by linarith
  have r: "round_half_even (5000000000000000 + 1 / 2) = 5000000000000000"
    unfolding round_half_even_def f by simp
  show ?thesis
    unfolding double_round_def fl q r by simp
qed

lemma double_add_values:
  "double_add 0 10000000000000000 = 10000000000000000"
  "double_add 10000000000000000 1 = 10000000000000000"
  "double_add 0 1 = 1"
  "double_add 1 1 = 2"
  "double_add 2 10000000000000000 = 10000000000000002"
proof -
  have a: "double_round (of_int 5000000000000000 * 2 powr of_int 1)
             = of_int 5000000000000000 * 2 powr of_int 1"
    by (rule double_round_representable) simp_all
  have b: "double_round (of_int (2 ^ 52) * 2 powr of_int (- 52))
             = of_int (2 ^ 52) * 2 powr of_int (- 52)"
    by (rule double_round_representable) simp_all
  have c: "double_round (of_int (2 ^ 52) * 2 powr of_int (- 51))
             = of_int (2 ^ 52) * 2 powr of_int (- 51)"
    by (rule double_round_representable) simp_all
  have d: "double_round (of_int 5000000000000001 * 2 powr of_int 1)
             = of_int 5000000000000001 * 2 powr of_int 1"
    by (rule double_round_representable) simp_all
  have p52: "(2::real) powr (- 52) = 1 / 2 ^ 52" "(2::real) powr (- 51) = 1 / 2 ^ 51"
    by (simp_all add: powr_minus powr_realpow [symmetric] divide_simps)
  show "double_add 0 10000000000000000 = 10000000000000000"
    using a by (simp add: double_add_def)
  show "double_add 10000000000000000 1 = 10000000000000000"
    using double_round_tie by (simp add: double_add_def)
  show "double_add 0 1 = 1"
    using b by (simp add: double_add_def p52)
  show "double_add 1 1 = 2"
    using c by (simp add: double_add_def p52)
  show "double_add 2 10000000000000000 = 10000000000000002"
    using d by (simp add: double_add_def)
qed

lemma legs_loop_with_plus: "legs_loop_with (+) dm cs ixs acc = legs_loop dm cs ixs acc"
  by (induction ixs arbitrary: acc) (auto split: sum.splits)

lemma evaluate_with_plus: "evaluate_with (+) p x = evaluate p x"
  by (simp add: evaluate_with_def evaluate_def legs_loop_with_plus cong: sum.case_cong)

lemma legs_loop_with_non_negative:
  assumes "\<And>a b. 0 \<le> a \<Longrightarrow> 0 \<le> b \<Longrightarrow> 0 \<le> add a b"
  shows "non_negative dm \<Longrightarrow> 0 \<le> acc \<Longrightarrow> legs_loop_with add dm cs ixs acc = Inr v \<Longrightarrow> 0 \<le> v"
proof (induction ixs arbitrary: acc)
  case Nil
  then show ?case by simp
next
  case (Cons i ixs)
  from Cons.prems(3) obtain d where d: "leg dm cs i = Inr d"
    and rest: "legs_loop_with add dm cs ixs (add acc d) = Inr v"
    by (auto split: sum.splits)
  have "0 \<le> d" using Cons.prems(1) d by (rule leg_non_negative)
  then have "0 \<le> add acc d" using Cons.prems(2) assms by simp
  with Cons.IH Cons.prems(1) rest show ?case by blast
qed

lemma evaluate_with_non_negative:
  assumes add: "\<And>a b. 0 \<le> a \<Longrightarrow> 0 \<le> b \<Longrightarrow> 0 \<le> add a b"
    and "non_negative (distance_matrix p)" "evaluate_with add p x = Inr v"
  shows "0 \<le> v"
proof -
  from assms(3) obtain cs row0 c0 d0 total cl rowl dl where
    r0: "py_getitem (distance_matrix p) (start_city p) = Inr row0"
    and d0: "py_getitem row0 c0 = Inr d0"
    and lp: "legs_loop_with add (distance_matrix p) cs [0..<length cs - 1] (add 0 d0) = Inr total"
    and rl: "py_getitem (distance_matrix p) cl = Inr rowl"
    and dl: "py_getitem rowl (start_city p) = Inr dl"
    and v: "v = add total dl"
    unfolding evaluate_with_def by (auto split: sum.splits)
  have "0 \<le> d0" using assms(2) r0 d0 by (rule non_negative_entry)
  then have "0 \<le> add 0 d0" using add by simp
  then have "0 \<le> total"
    using legs_loop_with_non_negative [OF add assms(2) _ lp] by simp
  moreover have "0 \<le> dl" using assms(2) rl dl by (rule non_negative_entry)
  ultimately show ?thesis using v add by simp
qed

lemma evaluate_with_three_cities:
  "evaluate_with add (TSPProblem_init [[0, a, b], [a, 0, c], [b, c, 0]] 0) [0, 1]
     = Inr (add (add (add 0 a) c) b)"
  "evaluate_with add (TSPProblem_init [[0, a, b], [a, 0, c], [b, c, 0]] 0) [1, 0]
     = Inr (add (add (add 0 b) c) a)"
  by (simp_all add: evaluate_with_def TSPProblem_init_def Let_def py_getitem_def leg_def
        upt_rec [of 0] upt_rec [of 1] upt_rec [of 2])

lemma two_powr_neg_int:
  assumes "j \<le> 0"
  shows "(2::real) powr of_int j = 1 / 2 ^ nat (- j)"
proof -
  have "(of_int j :: real) = - real (nat (- j))"
    using assms by simp
  then have "(2::real) powr of_int j = 2 powr (- real (nat (- j)))"
    by (rule arg_cong)
  also have "\<dots> = 1 / 2 powr real (nat (- j))"
    by (simp add: powr_minus divide_inverse)
  also have "\<dots> = 1 / 2 ^ nat (- j)"
    by (simp add: powr_realpow)
  finally show ?thesis .
qed

lemma double_round_of_nat:
  assumes "n \<le> 2 ^ 53"
  shows "double_round (of_nat n) = of_nat n"
proof (cases "n = 0")
  case True
  then show ?thesis by (simp add: double_round_def)
next
  case False
  let ?v = "of_nat n :: real"
  define k where "k = \<lfloor>log 2 \<bar>?v\<bar>\<rfloor>"
  have pos: "0 < ?v" using False by simp
  have lo: "2 powr of_int k \<le> ?v" and hi: "?v < 2 powr of_int (k + 1)"
    using pos floor_log_eq_powr_iff [of ?v 2 k] by (simp_all add: k_def)
  have le: "?v \<le> 2 ^ 53"
    using assms by (metis of_nat_le_iff of_nat_numeral of_nat_power)
  have p53: "(2::real) powr of_int 53 = 2 ^ 53"
    by (simp add: powr_realpow [symmetric])
  have "2 powr of_int k \<le> (2::real) powr of_int 53"
    unfolding p53 using lo le by linarith
  then have "(of_int k :: real) \<le> of_int 53"
    using powr_le_cancel_iff [of 2 "of_int k" "of_int 53"] by linarith
  then have k53: "k \<le> 53" by linarith
  have "\<exists>z. ?v / 2 powr of_int (k - 52) = of_int z"
  proof (cases "k \<le> 52")
    case True
    then have "(2::real) powr of_int (k - 52) = 1 / 2 ^ nat (52 - k)"
      using two_powr_neg_int [of "k - 52"] by simp
    then have "?v / 2 powr of_int (k - 52) = of_int (int n * 2 ^ nat (52 - k))"
      by simp
    then show ?thesis by blast
  next
    case False
    with k53 have k: "k = 53" by linarith
    from lo le p53 have "?v = 2 ^ 53" unfolding k by linarith
    then have "?v / 2 powr of_int (k - 52) = of_int (2 ^ 52)"
      by (simp add: k)
    then show ?thesis by blast
  qed
  then obtain z where z: "?v / 2 powr of_int (k - 52) = of_int z" by blast
  then have "of_int z * 2 powr of_int (k - 52) = ?v"
    by (simp add: field_simps)
  then show ?thesis
    unfolding double_round_def k_def [symmetric] z round_half_even_of_int
    using False by simp
qed

lemma double_add_exact:
  assumes "a \<in> \<nat>" "b \<in> \<nat>" "a + b \<le> 2 ^ 53"
  shows "double_add a b = a + b"
proof -
  from assms(1,2) obtain i j where a: "a = of_nat i" and b: "b = of_nat j"
    by (auto simp: Nats_def)
  have "real (i + j) \<le> 2 ^ 53" using assms(3) a b by simp
  then have "i + j \<le> 2 ^ 53"
    by (metis of_nat_le_iff of_nat_numeral of_nat_power)
  from double_round_of_nat [OF this] show ?thesis
    by (simp add: double_add_def a b)
qed

lemma whole_distances_entry:
  assumes "whole_distances M dm" "py_getitem dm a = Inr row" "py_getitem row b = Inr d"
  shows "d \<in> \<nat> \<and> 0 \<le> d \<and> d \<le> M"
proof -
  have "row \<in> set dm" "d \<in> set row"
    using assms(2,3) by (auto dest: py_getitem_mem)
  with assms(1) have w: "0 \<le> d \<and> d \<le> M \<and> of_int \<lfloor>d\<rfloor> = d"
    unfolding whole_distances_def list_all_iff by blast
  then have "0 \<le> \<lfloor>d\<rfloor>" by simp
  then have "of_int \<lfloor>d\<rfloor> = (of_nat (nat \<lfloor>d\<rfloor>) :: real)" by simp
  with w have "d = of_nat (nat \<lfloor>d\<rfloor>)" by (simp only:)
  then have "d \<in> \<nat>" by (metis of_nat_in_Nats)
  with w show ?thesis by blast
qed

lemma whole_distances_leg:
  "whole_distances M dm \<Longrightarrow> leg dm cs i = Inr d \<Longrightarrow> d \<in> \<nat> \<and> 0 \<le> d \<and> d \<le> M"
  by (auto simp: leg_def split: sum.splits dest: whole_distances_entry)

lemma legs_loop_with_exact:
  assumes w: "whole_distances M dm" and r: "0 \<le> r"
  shows "acc \<in> \<nat> \<Longrightarrow> acc + (real (length ixs) + r) * M \<le> 2 ^ 53 \<Longrightarrow>
           legs_loop_with double_add dm cs ixs acc = legs_loop dm cs ixs acc
           \<and> (\<forall>v. legs_loop dm cs ixs acc = Inr v \<longrightarrow> v \<in> \<nat> \<and> v + r * M \<le> 2 ^ 53)"
proof (induction ixs arbitrary: acc)
  case Nil
  then show ?case by simp
next
  case (Cons i ixs)
  show ?case
  proof (cases "leg dm cs i")
    case (Inl e)
    then show ?thesis by simp
  next
    case (Inr d)
    from whole_distances_leg [OF w Inr] have d: "d \<in> \<nat>" "0 \<le> d" "d \<le> M" by simp_all
    then have M: "0 \<le> M" by simp
    have "0 \<le> (real (length ixs) + r) * M"
      using r M by simp
    moreover have "acc + (real (length (i # ixs)) + r) * M
                     = acc + M + (real (length ixs) + r) * M"
      by (simp add: algebra_simps)
    ultimately have b: "acc + d + (real (length ixs) + r) * M \<le> 2 ^ 53"
      and s: "acc + d \<le> 2 ^ 53"
      using Cons.prems(2) d(3) by linarith+
    have e: "double_add acc d = acc + d"
      using Cons.prems(1) d(1) s by (rule double_add_exact)
    have "acc + d \<in> \<nat>"
      using Cons.prems(1) d(1) by (rule Nats_add)
    from Cons.IH [OF this b] show ?thesis
      by (simp add: Inr e)
  qed
qed

lemma evaluate_with_double_add_exact:
  assumes w: "whole_distances M (distance_matrix p)"
    and b: "(real (length x) + 1) * M \<le> 2 ^ 53"
  shows "evaluate_with double_add p x = evaluate p x"
proof (cases "map_cities (cities_to_visit p) x")
  case (Inl e)
  then show ?thesis by (simp add: evaluate_with_def evaluate_def)
next
  case cs: (Inr cs)
  have len: "length cs = length x"
    using cs by (auto simp: map_cities_eq split: if_splits)
  show ?thesis
  proof (cases "py_getitem (distance_matrix p) (start_city p)")
    case (Inl e)
    then show ?thesis by (simp add: evaluate_with_def evaluate_def cs)
  next
    case row0: (Inr row0)
    show ?thesis
    proof (cases "py_getitem cs 0")
      case (Inl e)
      then show ?thesis by (simp add: evaluate_with_def evaluate_def cs row0)
    next
      case c0: (Inr c0)
      then have ne: "cs \<noteq> []" by (auto simp: py_getitem_def)
      show ?thesis
      proof (cases "py_getitem row0 c0")
        case (Inl e)
        then show ?thesis by (simp add: evaluate_with_def evaluate_def cs row0 c0)
      next
        case d0: (Inr d0)
        from whole_distances_entry [OF w row0 d0]
        have d: "d0 \<in> \<nat>" "0 \<le> d0" "d0 \<le> M" by simp_all
        then have M: "0 \<le> M" by simp
        have l: "real (length [0..<length cs - Suc 0]) + 1 = real (length x)"
          using ne len by (cases cs) simp_all
        have "(real (length x) + 1) * M = M + real (length x) * M"
          by (simp add: algebra_simps)
        with b d(3) have s0: "d0 + (real (length [0..<length cs - Suc 0]) + 1) * M \<le> 2 ^ 53"
          unfolding l by linarith
        have "0 \<le> real (length x) * M" using M by simp
        with b d(3) have "0 + d0 \<le> 2 ^ 53"
          by (simp add: algebra_simps)
        then have e0: "double_add 0 d0 = d0"
          using d(1) double_add_exact [of 0 d0] by simp
        from legs_loop_with_exact [OF w _ d(1) s0]
        have lp: "legs_loop_with double_add (distance_matrix p) cs [0..<length cs - Suc 0] d0
                    = legs_loop (distance_matrix p) cs [0..<length cs - Suc 0] d0"
          and tot: "\<And>v. legs_loop (distance_matrix p) cs [0..<length cs - Suc 0] d0 = Inr v
                      \<Longrightarrow> v \<in> \<nat> \<and> v + 1 * M \<le> 2 ^ 53"
          by simp_all
        show ?thesis
        proof (cases "legs_loop (distance_matrix p) cs [0..<length cs - Suc 0] d0")
          case (Inl e)
          then show ?thesis
            by (simp add: evaluate_with_def evaluate_def cs row0 c0 d0 e0 lp)
        next
          case total: (Inr total)
          from tot [OF total] have t: "total \<in> \<nat>" "total + M \<le> 2 ^ 53" by simp_all
          show ?thesis
          proof (cases "py_getitem cs (- 1)")
            case (Inl e)
            then show ?thesis
              by (simp add: evaluate_with_def evaluate_def cs row0 c0 d0 e0 lp total)
          next
            case cl: (Inr cl)
            show ?thesis
            proof (cases "py_getitem (distance_matrix p) cl")
              case (Inl e)
              then show ?thesis
                by (simp add: evaluate_with_def evaluate_def cs row0 c0 d0 e0 lp total cl)
            next
              case rowl: (Inr rowl)
              show ?thesis
              proof (cases "py_getitem rowl (start_city p)")
                case (Inl e)
                then show ?thesis
                  by (simp add: evaluate_with_def evaluate_def cs row0 c0 d0 e0 lp total cl rowl)
              next
                case dl: (Inr dl)
                from whole_distances_entry [OF w rowl dl]
                have "dl \<in> \<nat>" "dl \<le> M" by simp_all
                with t have "double_add total dl = total + dl"
                  by (intro double_add_exact) simp_all
                then show ?thesis
                  by (simp add: evaluate_with_def evaluate_def cs row0 c0 d0 e0 lp total cl
                        rowl dl)
              qed
            qed
          qed
        qed
      qed
    qed
  qed
qed

section \<open>The fitness is the length of the closed tour\<close>



section \<open>Decoding a permutation\<close>



text \<open>
  Claim C6 says that decoding a sequence that is not a bijection fails with an
  InvalidPermutation error. With three cities and start city 0, the sequence
  \<open>[0, 0]\<close> repeats position 0 and misses position 1, and is decoded into a tour that
  visits city 1 twice and city 2 never.
\<close>

theorem decode_accepts_non_bijection:
  "\<not> is_permutation
       (length (cities_to_visit (TSPProblem_init [[0, 2, 9], [2, 0, 6], [9, 6, 0]] 0))) [0, 0]
   \<and> decode (TSPProblem_init [[0, 2, 9], [2, 0, 6], [9, 6, 0]] 0) 0 [0, 0] = Inr [0, 1, 1, 0]"
  by code_simp

text \<open>
  Claim C6, as the code has it. Decoding checks nothing but the range of each
  subscript: it raises \<open>IndexError\<close> exactly when some entry of \<open>x\<close> is outside
  \<open>-len(cities_to_visit) .. len(cities_to_visit) - 1\<close>, and otherwise returns the tour
  of the mapped cities, a negative entry counting from the end of \<open>cities_to_visit\<close>;
  repeated and missing positions are accepted.
\<close>

theorem decode_fails_iff_out_of_range:
  "decode problem sc x =
     (if \<forall>i\<in>set x. - int (length (cities_to_visit problem)) \<le> i
                      \<and> i < int (length (cities_to_visit problem))
      then Inr ([sc] @ map (\<lambda>i. cities_to_visit problem
                                   ! py_index (length (cities_to_visit problem)) i) x @ [sc])
      else Inl IndexError)"
  by (simp add: decode_eq py_valid_def)

text \<open>Position 2 of two cities to visit raises; position -1 is the last city.\<close>

theorem decode_fails_iff_out_of_range_witness:
  "decode (TSPProblem_init [[0, 2, 9], [2, 0, 6], [9, 6, 0]] 0) 0 [0, 2] = Inl IndexError
   \<and> decode (TSPProblem_init [[0, 2, 9], [2, 0, 6], [9, 6, 0]] 0) 0 [- 1, 1] = Inr [0, 2, 2, 0]"
proof -
  let ?p = "TSPProblem_init [[0, 2, 9], [2, 0, 6], [9, 6, 0]] 0"
  have c: "cities_to_visit ?p = [1, 2]" by code_simp
  show ?thesis
    using decode_fails_iff_out_of_range [of ?p 0 "[0, 2]"]
      decode_fails_iff_out_of_range [of ?p 0 "[- 1, 1]"]
    by (simp add: c py_index_def)
qed

section \<open>Sign and symmetry of the fitness\<close>

text \<open>
  Claim C8 says that on a symmetric matrix the reverse of a permutation evaluates to
  the same tour length. The code adds doubles from left to right. On the symmetric
  matrix below, from start city 0, the tour through cities 1 and 2 adds
  \<open>1e16 + 1 + 1\<close>, where each \<open>+ 1\<close> is rounded away, and the reverse tour adds
  \<open>1 + 1 + 1e16\<close>, which is exact: the two lengths differ by 2.
\<close>

theorem reversed_tour_rounds_differently:
  "symmetric [[0, 10000000000000000, 1], [10000000000000000, 0, 1], [1, 1, 0]]
   \<and> square [[0, 10000000000000000, 1], [10000000000000000, 0, 1], [1, 1, 0]]
   \<and> non_negative [[0, 10000000000000000, 1], [10000000000000000, 0, 1], [1, 1, 0]]
   \<and> evaluate_with double_add
         (TSPProblem_init [[0, 10000000000000000, 1], [10000000000000000, 0, 1], [1, 1, 0]] 0)
         [0, 1] = Inr 10000000000000000
   \<and> evaluate_with double_add
         (TSPProblem_init [[0, 10000000000000000, 1], [10000000000000000, 0, 1], [1, 1, 0]] 0)
         (rev [0, 1]) = Inr 10000000000000002"
proof -
  let ?D = "[[0, 10000000000000000, 1], [10000000000000000, 0, 1], [1, 1, 0::real]]"
  have "symmetric ?D" "square ?D" "non_negative ?D"
    by code_simp+
  moreover have "evaluate_with double_add (TSPProblem_init ?D 0) [0, 1]
                   = Inr 10000000000000000"
    by (simp add: evaluate_with_three_cities double_add_values)
  moreover have "evaluate_with double_add (TSPProblem_init ?D 0) (rev [0, 1])
                   = Inr 10000000000000002"
    by (simp add: evaluate_with_three_cities double_add_values)
  ultimately show ?thesis by blast
qed

text \<open>
  Claim C8, as the code has it. If no entry of the distance matrix is negative, every
  fitness that \<open>_evaluate\<close> returns in double arithmetic is at least 0. If the matrix is
  square and symmetric, evaluating the reverse of \<open>x\<close> adds the same legs in the opposite
  order: it gives what evaluating \<open>x\<close> gives (the same distance, or the same error)
  when the additions are exact, which they are in exact arithmetic, and in double
  arithmetic when the distances are whole numbers of at most \<open>M\<close> with
  \<open>(len(x) + 1) * M \<le> 2 ^ 53\<close>.
\<close>

theorem evaluate_sign_and_reversal:
  "(non_negative dm \<longrightarrow> evaluate_with double_add (TSPProblem_init dm s) x = Inr v \<longrightarrow> 0 \<le> v)
   \<and> (square dm \<longrightarrow> symmetric dm \<longrightarrow>
        evaluate_with (+) (TSPProblem_init dm s) (rev x)
          = evaluate_with (+) (TSPProblem_init dm s) x)
   \<and> (square dm \<longrightarrow> symmetric dm \<longrightarrow> whole_distances M dm \<longrightarrow>
        (real (length x) + 1) * M \<le> 2 ^ 53 \<longrightarrow>
        evaluate_with double_add (TSPProblem_init dm s) (rev x)
          = evaluate_with double_add (TSPProblem_init dm s) x)"
proof (intro conjI impI)
  have dm: "distance_matrix (TSPProblem_init dm s) = dm"
    by (simp add: TSPProblem_init_def Let_def)
  {
    assume "non_negative dm" "evaluate_with double_add (TSPProblem_init dm s) x = Inr v"
    then show "0 \<le> v"
      using evaluate_with_non_negative [of double_add "TSPProblem_init dm s" x v]
      by (simp add: dm double_add_nonneg)
  }
  {
    assume "square dm" "symmetric dm"
    then show "evaluate_with (+) (TSPProblem_init dm s) (rev x)
                 = evaluate_with (+) (TSPProblem_init dm s) x"
      by (simp only: evaluate_with_plus evaluate_rev)
  }
  {
    assume sq: "square dm" "symmetric dm" and w: "whole_distances M dm"
      and b: "(real (length x) + 1) * M \<le> 2 ^ 53"
    have "evaluate_with double_add (TSPProblem_init dm s) (rev x)
            = evaluate (TSPProblem_init dm s) (rev x)"
      using w b by (intro evaluate_with_double_add_exact [of M]) (simp_all add: dm)
    also have "\<dots> = evaluate (TSPProblem_init dm s) x"
      using sq by (rule evaluate_rev)
    also have "\<dots> = evaluate_with double_add (TSPProblem_init dm s) x"
      using w b by (intro evaluate_with_double_add_exact [of M, symmetric]) (simp_all add: dm)
    finally show "evaluate_with double_add (TSPProblem_init dm s) (rev x)
                    = evaluate_with double_add (TSPProblem_init dm s) x" .
  }
qed

text \<open>Three cities with whole distances, start city 1: 6 + 9 + 2 in both directions.\<close>

theorem evaluate_sign_and_reversal_witness:
  "non_negative [[0, 2, 9], [2, 0, 6], [9, 6, 0]]
   \<and> square [[0, 2, 9], [2, 0, 6], [9, 6, 0]]
   \<and> symmetric [[0, 2, 9], [2, 0, 6], [9, 6, 0]]
   \<and> whole_distances 9 [[0, 2, 9], [2, 0, 6], [9, 6, 0]]
   \<and> (real (length [1, 0::int]) + 1) * 9 \<le> 2 ^ 53
   \<and> evaluate_with double_add (TSPProblem_init [[0, 2, 9], [2, 0, 6], [9, 6, 0]] 1) [1, 0]
       = Inr 17
   \<and> (0::real) \<le> 17
   \<and> evaluate_with (+) (TSPProblem_init [[0, 2, 9], [2, 0, 6], [9, 6, 0]] 1) (rev [1, 0])
       = Inr 17
   \<and> evaluate_with double_add (TSPProblem_init [[0, 2, 9], [2, 0, 6], [9, 6, 0]] 1)
         (rev [1, 0]) = Inr 17"
proof -
  let ?D = "[[0, 2, 9], [2, 0, 6], [9, 6, 0::real]]"
  let ?p = "TSPProblem_init ?D 1"
  have h1: "non_negative ?D" by code_simp
  have h2: "square ?D" by code_simp
  have h3: "symmetric ?D" by code_simp
  have h4: "whole_distances 9 ?D" by (simp add: whole_distances_def)
  have h5: "(real (length [1, 0::int]) + 1) * 9 \<le> 2 ^ 53" by simp
  have "evaluate ?p [1, 0] = Inr 17" by code_simp
  moreover have "evaluate_with double_add ?p [1, 0] = evaluate ?p [1, 0]"
    using h4 h5 by (intro evaluate_with_double_add_exact [of 9])
                   (simp_all add: TSPProblem_init_def Let_def)
  ultimately have e: "evaluate_with double_add ?p [1, 0] = Inr 17" by simp
  have p: "evaluate_with (+) ?p [1, 0] = Inr 17"
    by (simp add: evaluate_with_plus) code_simp
  from evaluate_sign_and_reversal [of ?D 1 "[1, 0]" 17 9] h1 h2 h3 h4 h5 e p
  have "(0::real) \<le> 17"
    and "evaluate_with (+) ?p (rev [1, 0]) = Inr 17"
    and "evaluate_with double_add ?p (rev [1, 0]) = Inr 17"
    by simp_all
  with h1 h2 h3 h4 h5 e show ?thesis by blast
qed

section \<open>A start city that is not a city\<close>

text \<open>
  Claim C10. The constructor is a total function: it has no failing branch. For a
  start city below 0 or from \<open>N\<close> on, no city is excluded: \<open>cities_to_visit\<close> holds all
  \<open>N\<close> city indices, \<open>n_var\<close> is \<open>N\<close>, and every permutation decodes into a tour with the
  start index at both ends and a permutation of all \<open>N\<close> cities, none of them the start
  index, in between.
\<close>

theorem start_city_out_of_range:
  assumes "s < 0 \<or> int (length dm) \<le> s"
  shows "cities_to_visit (TSPProblem_init dm s) = map int [0..<length dm]
         \<and> n_var (TSPProblem_init dm s) = int (length dm)
         \<and> (\<forall>x. is_permutation (length dm) x \<longrightarrow>
               (\<exists>best_tour. decode (TSPProblem_init dm s) s x = Inr ([s] @ best_tour @ [s])
                  \<and> mset best_tour = mset (map int [0..<length dm])
                  \<and> s \<notin> set best_tour))"
proof -
  let ?p = "TSPProblem_init dm s"
  have c: "cities_to_visit ?p = map int [0..<length dm]"
    using assms by (rule cities_to_visit_out)
  have n: "n_var ?p = int (length (cities_to_visit ?p))"
    by (simp add: TSPProblem_init_def Let_def)
  have l: "length (cities_to_visit ?p) = length dm"
    by (simp add: c)
  have "\<exists>best_tour. decode ?p s x = Inr ([s] @ best_tour @ [s])
          \<and> mset best_tour = mset (map int [0..<length dm]) \<and> s \<notin> set best_tour"
    if x: "is_permutation (length dm) x" for x
  proof -
    let ?best = "map (\<lambda>i. cities_to_visit ?p ! py_index (length (cities_to_visit ?p)) i) x"
    have p: "is_permutation (length (cities_to_visit ?p)) x"
      using x by (simp only: l)
    then have d: "decode ?p s x = Inr ([s] @ ?best @ [s])"
      by (simp add: decode_eq is_permutation_valid)
    have m: "mset ?best = mset (cities_to_visit ?p)"
      using p by (rule mset_mapped_cities)
    then have "set ?best = set (cities_to_visit ?p)"
      by (rule mset_eq_setD)
    then have "s \<notin> set ?best"
      using assms unfolding set_cities_to_visit by auto
    with d m c show ?thesis by metis
  qed
  with c n l show ?thesis by simp
qed

theorem start_city_out_of_range_witness:
  "((5::int) < 0 \<or> int (length [[0, 1], [1, 0::real]]) \<le> 5)
   \<and> cities_to_visit (TSPProblem_init [[0, 1], [1, 0]] 5) = [0, 1]
   \<and> n_var (TSPProblem_init [[0, 1], [1, 0]] 5) = 2
   \<and> is_permutation (length [[0, 1], [1, 0::real]]) [1, 0]
   \<and> decode (TSPProblem_init [[0, 1], [1, 0]] 5) 5 [1, 0] = Inr [5, 1, 0, 5]"
proof -
  let ?D = "[[0, 1], [1, 0::real]]"
  have h: "(5::int) < 0 \<or> int (length ?D) \<le> 5" by simp
  have p: "is_permutation (length ?D) [1, 0]" by code_simp
  have d: "decode (TSPProblem_init ?D 5) 5 [1, 0] = Inr [5, 1, 0, 5]" by code_simp
  from start_city_out_of_range [OF h]
  have "cities_to_visit (TSPProblem_init ?D 5) = map int [0..<length ?D]"
    and "n_var (TSPProblem_init ?D 5) = int (length ?D)"
    by blast+
  moreover have "map int [0..<length ?D] = [0, 1]" by code_simp
  ultimately show ?thesis using h p d by simp
qed

section \<open>The two solver methods\<close>

text \<open>
  Claim C9. The primary and the modified solver method are one parameterised
  algorithm: each is \<open>solve_parameterized\<close> at its own crossover probability, mutation
  probability, seed and label, and they differ in nothing else.
\<close>

theorem solvers_are_one_parameterized_algorithm:
  "solve_with_genetic_algorithm =
     solve_parameterized None None 42 ''Genetic Algorithm (GA)''
   \<and> solve_with_modified_ga =
       solve_parameterized (Some 0.95) (Some 0.2) 123 ''Modified Genetic Algorithm (GA-2)''"
  by (intro conjI ext)
     (rule solve_with_genetic_algorithm_unfold solve_with_modified_ga_unfold)+

text \<open>
  Claim C4 says that a run with a population size below 2 or a generation count below
  1 fails with a Configuration error before any generation. On two cities, a run with
  population size 1 and one generation returns its result; and with population size
  1 and generation count 0 the error is the \<open>ZeroDivisionError\<close> of the library's
  termination criterion, raised when the first generation has been evaluated.
\<close>

theorem solver_accepts_malformed_configuration:
  "solve_with_genetic_algorithm minimize_model real [[0, 1], [1, 0]] 0 1 1 0 =
     Inr (\<lparr> algorithm = ''Genetic Algorithm (GA)'', result_start_city = 0, tour = [0, 1, 0],
            distance = 2, execution_time = 1, generations = 1 \<rparr>, 2)
   \<and> solve_with_genetic_algorithm minimize_model real [[0, 1], [1, 0]] 0 1 0 0 =
       Inl (LibraryError ''ZeroDivisionError'')"
  by code_simp

text \<open>
  Claim C4, as the code has it. The solver validates nothing: whatever the distance
  matrix, the population size and the generation count are, it builds the problem and
  calls \<open>minimize\<close> with them. A run fails exactly when \<open>minimize\<close> raises, with that
  error, or when \<open>minimize\<close> returns and the tour cannot be rebuilt or the distance
  cannot be read: with \<open>TypeError\<close> when \<open>X\<close> is \<open>None\<close>, with \<open>IndexError\<close> when \<open>X\<close> has
  a subscript out of range, with \<open>TypeError\<close> when \<open>F\<close> is \<open>None\<close>, and with \<open>IndexError\<close>
  when \<open>F\<close> is empty.
\<close>

theorem solver_fails_only_through_library:
  "solve_with_genetic_algorithm m t dm sc pop n k = Inl e \<longleftrightarrow>
     m (TSPProblem_init dm sc)
       \<lparr> pop_size = pop, sampling = PermutationRandomSampling,
         crossover = OrderCrossover None, mutation = InversionMutation None,
         eliminate_duplicates = True \<rparr>
       (get_termination ''n_gen'' n) 42 = Inl e
     \<or> (\<exists>res. m (TSPProblem_init dm sc)
                 \<lparr> pop_size = pop, sampling = PermutationRandomSampling,
                   crossover = OrderCrossover None, mutation = InversionMutation None,
                   eliminate_duplicates = True \<rparr>
                 (get_termination ''n_gen'' n) 42 = Inr res
              \<and> (case X res of
                    None \<Rightarrow> e = TypeError
                  | Some best_perm \<Rightarrow>
                      if \<exists>i\<in>set best_perm.
                           i < - int (length (cities_to_visit (TSPProblem_init dm sc)))
                           \<or> int (length (cities_to_visit (TSPProblem_init dm sc))) \<le> i
                      then e = IndexError
                      else (case F res of
                              None \<Rightarrow> e = TypeError
                            | Some objectives \<Rightarrow> objectives = [] \<and> e = IndexError)))"
  using solve_with_genetic_algorithm_fails [of m t dm sc pop n k e]
  by (simp only: not_py_valid)

text \<open>
  A start city that is not a city: the first evaluation raises \<open>IndexError\<close> inside
  \<open>minimize\<close>, and the run raises it.
\<close>

theorem solver_fails_only_through_library_witness:
  "solve_with_genetic_algorithm minimize_model real [[0, 1], [1, 0]] 5 100 500 0
     = Inl IndexError"
proof -
  have "minimize_model (TSPProblem_init [[0, 1], [1, 0]] 5)
          \<lparr> pop_size = 100, sampling = PermutationRandomSampling,
            crossover = OrderCrossover None, mutation = InversionMutation None,
            eliminate_duplicates = True \<rparr>
          (get_termination ''n_gen'' 500) 42 = Inl IndexError"
    by code_simp
  then show ?thesis
    by (simp only: solver_fails_only_through_library
          [of minimize_model real "[[0, 1], [1, 0]]" 5 100 500 0 IndexError] simp_thms)
qed

section \<open>Comparing the algorithms\<close>

text \<open>
  Claim C5 says that a failing run does not abort its sibling runs. For the starting
  cities \<open>[5, 0]\<close> on two cities, with one generation, the first run raises
  \<open>IndexError\<close> and so does \<open>compare_algorithms\<close>, although both runs from city 0 return
  a result on their own.
\<close>

theorem compare_algorithms_failure_aborts_siblings:
  "compare_algorithms minimize_model real [[0, 1], [1, 0]] [5, 0] 50 1 0 = Inl IndexError
   \<and> outcome (solve_with_genetic_algorithm minimize_model real [[0, 1], [1, 0]] 0 50 1 0)
       = Inr ([0, 1, 0], 2, 1)
   \<and> outcome (solve_with_modified_ga minimize_model real [[0, 1], [1, 0]] 0 50 1 0)
       = Inr ([0, 1, 0], 2, 1)"
proof -
  have "solve_with_genetic_algorithm minimize_model real [[0, 1], [1, 0]] 5 50 1 0
          = Inl IndexError"
    by code_simp
  then have "compare_algorithms minimize_model real [[0, 1], [1, 0]] [5, 0] 50 1 0
               = Inl IndexError"
    by (simp add: compare_algorithms_def)
  moreover have
    "outcome (solve_with_genetic_algorithm minimize_model real [[0, 1], [1, 0]] 0 50 1 0)
       = Inr ([0, 1, 0], 2, 1)"
    "outcome (solve_with_modified_ga minimize_model real [[0, 1], [1, 0]] 0 50 1 0)
       = Inr ([0, 1, 0], 2, 1)"
    by code_simp+
  ultimately show ?thesis by blast
qed

text \<open>
  Claim C5, as the code has it. \<open>compare_algorithms\<close> runs the starting cities in
  order, and the first run that raises ends it: when every run for the cities before
  \<open>sc\<close> returns and a run for \<open>sc\<close> raises \<open>e\<close>, the method raises \<open>e\<close> and returns no
  results, whatever cities follow.
\<close>

theorem compare_algorithms_aborts_at_first_failure:
  assumes "\<forall>c\<in>set pre.
             (\<exists>r. outcome (solve_with_genetic_algorithm m t dm c pop n 0) = Inr r)
             \<and> (\<exists>r. outcome (solve_with_modified_ga m t dm c pop n 0) = Inr r)"
    and "outcome (solve_with_genetic_algorithm m t dm sc pop n 0) = Inl e
         \<or> ((\<exists>r. outcome (solve_with_genetic_algorithm m t dm sc pop n 0) = Inr r)
              \<and> outcome (solve_with_modified_ga m t dm sc pop n 0) = Inl e)"
  shows "compare_algorithms m t dm (pre @ sc # post) pop n k = Inl e"
proof -
  from compare_loop_prefix [OF assms(1)] obtain results' k' where
    p: "compare_loop m t dm (pre @ sc # post) pop n Map.empty k =
          compare_loop m t dm (sc # post) pop n results' k'"
    by blast
  have a: "outcome (solve_with_genetic_algorithm m t dm sc pop n k')
             = outcome (solve_with_genetic_algorithm m t dm sc pop n 0)"
    and b: "outcome (solve_with_modified_ga m t dm sc pop n k2)
             = outcome (solve_with_modified_ga m t dm sc pop n 0)" for k2
    unfolding solve_with_genetic_algorithm_unfold solve_with_modified_ga_unfold
    by (simp_all only: outcome_solve_parameterized)
  from assms(2) have "compare_loop m t dm (sc # post) pop n results' k' = Inl e"
  proof
    assume "outcome (solve_with_genetic_algorithm m t dm sc pop n 0) = Inl e"
    with a have "outcome (solve_with_genetic_algorithm m t dm sc pop n k') = Inl e"
      by (simp only:)
    then have "solve_with_genetic_algorithm m t dm sc pop n k' = Inl e"
      by (simp only: outcome_Inl)
    then show ?thesis by simp
  next
    assume h: "(\<exists>r. outcome (solve_with_genetic_algorithm m t dm sc pop n 0) = Inr r)
                \<and> outcome (solve_with_modified_ga m t dm sc pop n 0) = Inl e"
    then obtain g k1 where
      g: "solve_with_genetic_algorithm m t dm sc pop n k' = Inr (g, k1)"
      using a outcome_Inr by metis
    from h b [of k1] have "outcome (solve_with_modified_ga m t dm sc pop n k1) = Inl e"
      by (simp only:)
    then have "solve_with_modified_ga m t dm sc pop n k1 = Inl e"
      by (simp only: outcome_Inl)
    with g show ?thesis by simp
  qed
  with p show ?thesis by (simp add: compare_algorithms_def)
qed

theorem compare_algorithms_aborts_at_first_failure_witness:
  "compare_algorithms minimize_model real [[0, 1], [1, 0]] ([0] @ 5 # [1]) 50 1 0
     = Inl IndexError"
proof -
  let ?D = "[[0, 1], [1, 0::real]]"
  have a: "\<forall>c\<in>set [0].
             (\<exists>r. outcome (solve_with_genetic_algorithm minimize_model real ?D c 50 1 0) = Inr r)
             \<and> (\<exists>r. outcome (solve_with_modified_ga minimize_model real ?D c 50 1 0) = Inr r)"
  proof -
    have
      "outcome (solve_with_genetic_algorithm minimize_model real ?D 0 50 1 0)
         = Inr ([0, 1, 0], 2, 1)"
      "outcome (solve_with_modified_ga minimize_model real ?D 0 50 1 0)
         = Inr ([0, 1, 0], 2, 1)"
      by code_simp+
    then show ?thesis by simp
  qed
  have "outcome (solve_with_genetic_algorithm minimize_model real ?D 5 50 1 0)
          = Inl IndexError"
    by code_simp
  then have b: "outcome (solve_with_genetic_algorithm minimize_model real ?D 5 50 1 0)
                  = Inl IndexError
         \<or> ((\<exists>r. outcome (solve_with_genetic_algorithm minimize_model real ?D 5 50 1 0) = Inr r)
              \<and> outcome (solve_with_modified_ga minimize_model real ?D 5 50 1 0)
                  = Inl IndexError)"
    by (rule disjI1)
  show ?thesis
    by (rule compare_algorithms_aborts_at_first_failure [OF a b])
qed

section \<open>Two cities\<close>




end
